theory Spec2Isabelle
  imports Complex_Main
begin

section \<open>Strings\<close>

text \<open>
  Python's \<^verbatim>\<open>str.replace(old, new)\<close>: every non-overlapping occurrence of \<open>old\<close>,
  found from left to right, is replaced by \<open>new\<close>. With an empty \<open>old\<close> Python puts
  \<open>new\<close> before every character and at the end.
\<close>

function replace :: "string \<Rightarrow> string \<Rightarrow> string \<Rightarrow> string" where
  "replace old new s =
     (if old = [] then new @ concat (map (\<lambda>c. c # new) s)
      else if s = [] then []
      else if take (length old) s = old then new @ replace old new (drop (length old) s)
      else hd s # replace old new (tl s))"
  by pat_completeness auto
termination
  by (relation "measure (\<lambda>(old, new, s). length s)") auto

declare replace.simps [simp del]

section \<open>Schema Sanitizer: column names\<close>

text \<open>
  \<^verbatim>\<open>
  def clean_name(name):
      for char in ['(', ')', '#', '-', ' ', "'"]:
          name = name.replace(char, '')
      return name
  \<close>
\<close>

definition special_characters :: "string list" where
  "special_characters = [''('', '')'', ''#'', ''-'', '' '', [CHR 39]]"

definition clean_name :: "string \<Rightarrow> string" where
  "clean_name name = foldl (\<lambda>name char. replace char [] name) name special_characters"

definition banned :: "char set" where
  "banned = {CHR ''('', CHR '')'', CHR ''#'', CHR ''-'', CHR '' '', CHR 39}"

section \<open>Record tables\<close>

text \<open>
  A float64 value: a finite value (the rational it denotes), an infinity or NaN. The
  functions below only move such values around; none of them computes with one.
\<close>

datatype f64 = Finite rat | PosInf | NegInf | NaN

text \<open>
  A timestamp without time zone, by its fields; \<open>ts_nano\<close> is the part of the second,
  in nanoseconds.
\<close>

datatype timestamp = Timestamp (ts_year: nat) (ts_month: nat) (ts_day: nat)
  (ts_hour: nat) (ts_minute: nat) (ts_second: nat) (ts_nano: nat)

text \<open>A shapely point, with its two coordinates.\<close>

datatype point = Point (geom_x: f64) (geom_y: f64)

text \<open>
  A cell of a table: \<^verbatim>\<open>None\<close>, a number, a text, a timestamp, the missing timestamp
  \<^verbatim>\<open>NaT\<close>, or a geometry (the cells of the column the Geometry Builder adds).
\<close>

datatype val = VNone | VNum f64 | VStr string | VTime timestamp | VNaT | VGeom point

datatype dtype = Float64 | Datetime64 | Object | GeometryDtype

text \<open>
  A pandas DataFrame, row by row: the column names, the dtype of each column, and the
  rows, each with its index label and one cell per column. \<open>crs\<close> is set on a
  GeoDataFrame only.
\<close>

record dataframe =
  columns :: "string list"
  dtypes :: "dtype list"
  rows :: "(int \<times> val list) list"
  crs :: "int option"

text \<open>The invariant of a table: one dtype per column and one cell per column in each row.\<close>

definition wf_df :: "dataframe \<Rightarrow> bool" where
  "wf_df df = (length (dtypes df) = length (columns df) \<and>
     list_all (\<lambda>r. length (snd r) = length (columns df)) (rows df))"

datatype json = JNull | JBool bool | JNum int | JStr string | JArr "json list"
  | JObj "(string \<times> json) list"

datatype req_exc = ConnectionError | HTTPError nat | JSONDecodeError

datatype error = KeyError "string list" | TypeError | ValueError | AttributeError
  | CRSError | RequestException req_exc | Exception string json

text \<open>\<^verbatim>\<open>pd.isna\<close> on a scalar: \<^verbatim>\<open>None\<close>, NaN and \<^verbatim>\<open>NaT\<close> are missing values.\<close>

fun isna :: "val \<Rightarrow> bool" where
  "isna VNone = True"
| "isna (VNum f) = (f = NaN)"
| "isna VNaT = True"
| "isna (VStr s) = False"
| "isna (VTime t) = False"
| "isna (VGeom g) = False"

text \<open>
  Python's \<^verbatim>\<open>float(v)\<close>. How a text is read as a number is Python's own parser, taken
  as the parameter \<open>parse\<close> (\<open>None\<close> when the text is no number: ValueError).
\<close>

fun py_float :: "(string \<Rightarrow> f64 option) \<Rightarrow> val \<Rightarrow> error + f64" where
  "py_float parse (VNum f) = Inr f"
| "py_float parse (VStr s) = (case parse s of None \<Rightarrow> Inl ValueError | Some f \<Rightarrow> Inr f)"
| "py_float parse VNone = Inl TypeError"
| "py_float parse (VTime t) = Inl TypeError"
| "py_float parse VNaT = Inl TypeError"
| "py_float parse (VGeom g) = Inl TypeError"

text \<open>A list comprehension whose body may raise: the first exception ends it.\<close>

fun traverse :: "('a \<Rightarrow> error + 'b) \<Rightarrow> 'a list \<Rightarrow> error + 'b list" where
  "traverse f [] = Inr []"
| "traverse f (a # as) =
     (case f a of
        Inl e \<Rightarrow> Inl e
      | Inr b \<Rightarrow> (case traverse f as of Inl e \<Rightarrow> Inl e | Inr bs \<Rightarrow> Inr (b # bs)))"

text \<open>The positions of the columns named \<open>c\<close> (pandas' \<^verbatim>\<open>Index.get_indexer_for\<close>).\<close>

definition get_indexer_for :: "string list \<Rightarrow> string \<Rightarrow> nat list" where
  "get_indexer_for cols c = filter (\<lambda>j. cols ! j = c) [0..<length cols]"

definition column_cells :: "dataframe \<Rightarrow> nat \<Rightarrow> val list" where
  "column_cells df j = map (\<lambda>r. snd r ! j) (rows df)"

text \<open>
  Iterating over \<^verbatim>\<open>df[c]\<close>: KeyError when no column has that name, the cells of the
  column when one has, and, when several have (\<^verbatim>\<open>df[c]\<close> is then a frame), the
  column labels of that frame.
\<close>

definition getitem_iter :: "dataframe \<Rightarrow> string \<Rightarrow> error + val list" where
  "getitem_iter df c =
     (case get_indexer_for (columns df) c of
        [] \<Rightarrow> Inl (KeyError [c])
      | [j] \<Rightarrow> Inr (column_cells df j)
      | j # k # js \<Rightarrow> Inr (map (\<lambda>_. VStr c) (j # k # js)))"

text \<open>
  \<^verbatim>\<open>df[c] = values\<close>: a new last column when no column is named \<open>c\<close>, else the
  columns of that name are overwritten where they stand.
\<close>

definition setitem :: "dataframe \<Rightarrow> string \<Rightarrow> dtype \<Rightarrow> val list \<Rightarrow> dataframe" where
  "setitem df c dt vs =
     (case get_indexer_for (columns df) c of
        [] \<Rightarrow> df\<lparr>columns := columns df @ [c], dtypes := dtypes df @ [dt],
                rows := map2 (\<lambda>r v. (fst r, snd r @ [v])) (rows df) vs\<rparr>
      | j # js \<Rightarrow> df\<lparr>dtypes := fold (\<lambda>k ds. ds[k := dt]) (j # js) (dtypes df),
                rows := map2 (\<lambda>r v. (fst r, fold (\<lambda>k cs. cs[k := v]) (j # js) (snd r)))
                          (rows df) vs\<rparr>)"

section \<open>Geometry Builder\<close>

text \<open>
  \<^verbatim>\<open>Point(xy)\<close> of shapely: both coordinates are read as floats; a coordinate that is
  no number raises.
\<close>

definition shapely_Point :: "(string \<Rightarrow> f64 option) \<Rightarrow> val \<times> val \<Rightarrow> error + point" where
  "shapely_Point parse xy =
     (case py_float parse (fst xy) of
        Inl e \<Rightarrow> Inl e
      | Inr a \<Rightarrow> (case py_float parse (snd xy) of Inl e \<Rightarrow> Inl e | Inr b \<Rightarrow> Inr (Point a b)))"

text \<open>
  \<^verbatim>\<open>gpd.GeoDataFrame(df, geometry=geometry)\<close>: the frame with the list stored as its
  column \<^verbatim>\<open>geometry\<close>; a list of another length than the frame is refused. The
  points of the list carry no coordinate reference system, so the new frame has none.
\<close>

definition GeoDataFrame :: "dataframe \<Rightarrow> point list \<Rightarrow> error + dataframe" where
  "GeoDataFrame df geometry =
     (if length geometry = length (rows df)
      then Inr ((setitem df ''geometry'' GeometryDtype (map VGeom geometry))\<lparr>crs := None\<rparr>)
      else Inl ValueError)"

text \<open>
  \<^verbatim>\<open>gdf.set_crs(epsg=crs, inplace=True)\<close>: a code that the EPSG registry does not
  know is refused, and so is a code other than the one the frame already has. The
  registry is the parameter \<open>valid_epsg\<close>.
\<close>

definition set_crs :: "(int \<Rightarrow> bool) \<Rightarrow> dataframe \<Rightarrow> int \<Rightarrow> error + dataframe" where
  "set_crs valid_epsg gdf epsg =
     (if \<not> valid_epsg epsg then Inl CRSError
      else case crs gdf of
             None \<Rightarrow> Inr (gdf\<lparr>crs := Some epsg\<rparr>)
           | Some c \<Rightarrow> if c = epsg then Inr gdf else Inl ValueError)"

text \<open>
  \<^verbatim>\<open>pd.api.types.is_datetime64_any_dtype(gdf[column])\<close>: the dtype of the one column of
  that name; a name that several columns share selects a frame, which has no dtype.
\<close>

definition is_datetime64_any_dtype :: "dataframe \<Rightarrow> string \<Rightarrow> bool" where
  "is_datetime64_any_dtype gdf c =
     (case get_indexer_for (columns gdf) c of [j] \<Rightarrow> dtypes gdf ! j = Datetime64 | _ \<Rightarrow> False)"

text \<open>
  Decimal digits: \<open>show_nat\<close> writes a number, \<open>zfill\<close> pads a text with zeros on
  the left to a width (Python's format \<^verbatim>\<open>02d\<close> is \<open>zfill 2\<close> of the digits).
\<close>

definition digit :: "nat \<Rightarrow> char" where
  "digit n = ''0123456789'' ! (n mod 10)"

function show_nat :: "nat \<Rightarrow> string" where
  "show_nat n = (if n < 10 then [digit n] else show_nat (n div 10) @ [digit n])"
  by pat_completeness auto
termination
  by (relation "measure (\<lambda>n. n)") auto

declare show_nat.simps [simp del]

definition zfill :: "nat \<Rightarrow> string \<Rightarrow> string" where
  "zfill width s = replicate (width - length s) CHR ''0'' @ s"

text \<open>
  The text pandas writes for the values of a datetime-typed column
  (\<^verbatim>\<open>astype(str)\<close>). One format is chosen for the whole column: when every
  timestamp of the column is at midnight, the date alone; else date and time, with the
  fraction of the second in the finest unit (milli-, micro- or nanoseconds) that a
  timestamp of the column needs. \<^verbatim>\<open>NaT\<close> is written \<^verbatim>\<open>NaT\<close>.
\<close>

definition date_text :: "timestamp \<Rightarrow> string" where
  "date_text t =
     show_nat (ts_year t) @ ''-'' @ zfill 2 (show_nat (ts_month t)) @ ''-'' @
     zfill 2 (show_nat (ts_day t))"

definition time_text :: "timestamp \<Rightarrow> string" where
  "time_text t =
     zfill 2 (show_nat (ts_hour t)) @ '':'' @ zfill 2 (show_nat (ts_minute t)) @ '':'' @
     zfill 2 (show_nat (ts_second t))"

fun is_date_only :: "val \<Rightarrow> bool" where
  "is_date_only (VTime t) =
     (ts_hour t = 0 \<and> ts_minute t = 0 \<and> ts_second t = 0 \<and> ts_nano t = 0)"
| "is_date_only v = True"

fun nano_of :: "val \<Rightarrow> nat" where
  "nano_of (VTime t) = ts_nano t"
| "nano_of v = 0"

definition fraction_text :: "val list \<Rightarrow> timestamp \<Rightarrow> string" where
  "fraction_text cells t =
     (if list_ex (\<lambda>v. nano_of v mod 1000 \<noteq> 0) cells
        then ''.'' @ zfill 9 (show_nat (ts_nano t))
      else if list_ex (\<lambda>v. nano_of v mod 1000000 \<noteq> 0) cells
        then ''.'' @ zfill 6 (show_nat (ts_nano t div 1000))
      else if list_ex (\<lambda>v. nano_of v \<noteq> 0) cells
        then ''.'' @ zfill 3 (show_nat (ts_nano t div 1000000))
      else [])"

definition datetime_text :: "val list \<Rightarrow> timestamp \<Rightarrow> string" where
  "datetime_text cells t =
     (if list_all is_date_only cells then date_text t
      else date_text t @ '' '' @ time_text t @ fraction_text cells t)"

text \<open>
  \<^verbatim>\<open>gdf[column] = gdf[column].astype(str)\<close>, run when the column is datetime-typed.
  The cells of such a column are timestamps and \<^verbatim>\<open>NaT\<close>.
\<close>

fun text_cell :: "val list \<Rightarrow> val \<Rightarrow> val" where
  "text_cell cells (VTime t) = VStr (datetime_text cells t)"
| "text_cell cells VNaT = VStr ''NaT''"
| "text_cell cells v = v"

definition astype_str :: "val list \<Rightarrow> val list" where
  "astype_str cells = map (text_cell cells) cells"

definition convert_if_datetime :: "dataframe \<Rightarrow> string \<Rightarrow> dataframe" where
  "convert_if_datetime gdf c =
     (if is_datetime64_any_dtype gdf c
      then setitem gdf c Object
             (astype_str (column_cells gdf (hd (get_indexer_for (columns gdf) c))))
      else gdf)"

text \<open>
  \<^verbatim>\<open>
  def df_to_gdf(df, lat_col, lon_col, crs=4326):
      geometry = [Point(xy) for xy in zip(df[lon_col], df[lat_col])]
      gdf = gpd.GeoDataFrame(df, geometry=geometry)
      gdf.set_crs(epsg=crs, inplace=True)
      for column in gdf.columns:
          if pd.api.types.is_datetime64_any_dtype(gdf[column]):
              gdf[column] = gdf[column].astype(str)
      return gdf
  \<close>
\<close>

definition df_to_gdf ::
  "(int \<Rightarrow> bool) \<Rightarrow> (string \<Rightarrow> f64 option) \<Rightarrow>
   dataframe \<Rightarrow> string \<Rightarrow> string \<Rightarrow> int \<Rightarrow> error + dataframe" where
  "df_to_gdf valid_epsg parse df lat_col lon_col crs_code =
     (case getitem_iter df lon_col of
        Inl e \<Rightarrow> Inl e
      | Inr lons \<Rightarrow>
     (case getitem_iter df lat_col of
        Inl e \<Rightarrow> Inl e
      | Inr lats \<Rightarrow>
     (case traverse (shapely_Point parse) (zip lons lats) of
        Inl e \<Rightarrow> Inl e
      | Inr geometry \<Rightarrow>
     (case GeoDataFrame df geometry of
        Inl e \<Rightarrow> Inl e
      | Inr gdf0 \<Rightarrow>
     (case set_crs valid_epsg gdf0 crs_code of
        Inl e \<Rightarrow> Inl e
      | Inr gdf \<Rightarrow> Inr (foldl convert_if_datetime gdf (columns gdf)))))))"

text \<open>The cell of row \<open>i\<close> in column \<open>j\<close>, and the geometry of row \<open>i\<close>.\<close>

definition cell :: "dataframe \<Rightarrow> nat \<Rightarrow> nat \<Rightarrow> val" where
  "cell df i j = snd (rows df ! i) ! j"

definition geometry_at :: "dataframe \<Rightarrow> nat \<Rightarrow> val" where
  "geometry_at gdf i = cell gdf i (hd (get_indexer_for (columns gdf) ''geometry''))"

text \<open>
  The state of the loop over the columns after the columns named in \<open>S\<close> have been
  visited, in terms of the frame \<open>g0\<close> before the loop: the datetime-typed columns
  among them hold texts, everything else is as in \<open>g0\<close>.
\<close>

definition converted_upto :: "string set \<Rightarrow> dataframe \<Rightarrow> dataframe \<Rightarrow> bool" where
  "converted_upto S g0 g =
     (columns g = columns g0 \<and> crs g = crs g0 \<and> length (rows g) = length (rows g0) \<and>
      length (dtypes g) = length (dtypes g0) \<and>
      (\<forall>j<length (columns g0).
         dtypes g ! j =
           (if columns g0 ! j \<in> S \<and> dtypes g0 ! j = Datetime64 then Object else dtypes g0 ! j)) \<and>
      (\<forall>i<length (rows g0).
         fst (rows g ! i) = fst (rows g0 ! i) \<and>
         length (snd (rows g ! i)) = length (snd (rows g0 ! i)) \<and>
         (\<forall>j<length (columns g0).
            cell g i j =
              (if columns g0 ! j \<in> S \<and> dtypes g0 ! j = Datetime64
               then text_cell (column_cells g0 j) (cell g0 i j) else cell g0 i j))))"

section \<open>Schema Sanitizer\<close>

text \<open>
  \<^verbatim>\<open>df.dropna(subset=...)\<close>: KeyError when a name of the subset is no column; else the
  rows that have no missing value in any column named in the subset are kept, with
  their index labels.
\<close>

definition dropna :: "string list \<Rightarrow> dataframe \<Rightarrow> error + dataframe" where
  "dropna labels df =
     (case filter (\<lambda>c. get_indexer_for (columns df) c = []) labels of
        [] \<Rightarrow>
          Inr (df\<lparr>rows :=
                 filter (\<lambda>r. list_all (\<lambda>j. \<not> isna (snd r ! j))
                               (concat (map (get_indexer_for (columns df)) labels)))
                   (rows df)\<rparr>)
      | m # ms \<Rightarrow> Inl (KeyError (m # ms)))"

text \<open>
  The tables live in a store, and a Python variable holds the position of its table
  there. \<^verbatim>\<open>df.copy()\<close> and \<^verbatim>\<open>dropna\<close> make a new table; assigning to
  \<^verbatim>\<open>df_ago.columns\<close> changes the table \<^verbatim>\<open>df_ago\<close> refers to.
  \<^verbatim>\<open>
  def prepare_df_for_ago(df):
      df_ago = df.copy()
      df_ago.columns = [clean_name(col) for col in df_ago.columns]
      df_ago = df_ago.dropna(subset=['LatLongSource'])
      return df_ago
  \<close>
  The result is the store afterwards and either the exception or the position of the
  returned table.
\<close>

type_synonym store = "dataframe list"

definition prepare_df_for_ago :: "store \<Rightarrow> nat \<Rightarrow> store \<times> (error + nat)" where
  "prepare_df_for_ago s df =
     (let df_ago = length s;
          s1 = s @ [s ! df];
          s2 = s1[df_ago := (s1 ! df_ago)\<lparr>columns := map clean_name (columns (s1 ! df_ago))\<rparr>]
      in case dropna [''LatLongSource''] (s2 ! df_ago) of
           Inl e \<Rightarrow> (s2, Inl e)
         | Inr dropped \<Rightarrow> (s2 @ [dropped], Inr (length s2)))"

text \<open>The table a call returns, for a caller that holds one table.\<close>

definition prepared :: "dataframe \<Rightarrow> error + dataframe" where
  "prepared df =
     (case prepare_df_for_ago [df] 0 of
        (s, Inl e) \<Rightarrow> Inl e
      | (s, Inr df_ago) \<Rightarrow> Inr (s ! df_ago))"

text \<open>
  The provenance field of a row is missing when a cell under a column whose name is
  \<^verbatim>\<open>LatLongSource\<close> is a missing value.
\<close>

definition provenance_missing :: "string list \<Rightarrow> int \<times> val list \<Rightarrow> bool" where
  "provenance_missing cols r =
     list_ex (\<lambda>cv. fst cv = ''LatLongSource'' \<and> isna (snd cv)) (zip cols (snd r))"

section \<open>Requests and responses\<close>

text \<open>
  A feature of the batch: its geometry, the well-known id of its spatial reference and
  its attributes, in the order of the columns.
\<close>

datatype feature = Feature (feat_geometry: point) (feat_wkid: int)
  (feat_attributes: "(string \<times> val) list")

text \<open>
  A form field of a request is a text, a JSON document (\<^verbatim>\<open>json.dumps\<close> of a
  dictionary) or the feature batch (\<^verbatim>\<open>json.dumps(features)\<close>); the documents are kept
  as data, not as their text.
\<close>

datatype payload = Text string | Json json | Features "feature list"

datatype request = Post (req_url: string) (req_data: "(string \<times> payload) list")



datatype log_entry =
    FolderExists string
  | FolderCreated string
  | FolderFailed req_exc
  | ServiceCreated json
  | RowError int error
  | NoValidFeatures
  | FeaturesAdded nat nat
  | AddError json
  | RequestFailed req_exc









fun truthy :: "json \<Rightarrow> bool" where
  "truthy JNull = False"
| "truthy (JBool b) = b"
| "truthy (JNum n) = (n \<noteq> 0)"
| "truthy (JStr s) = (s \<noteq> [])"
| "truthy (JArr xs) = (xs \<noteq> [])"
| "truthy (JObj kvs) = (kvs \<noteq> [])"

section \<open>Folder Resolver\<close>


text \<open>
  \<^verbatim>\<open>get_ago_folderID(token, username, folder_name)\<close>. A \<^verbatim>\<open>RequestException\<close>
  is logged and raised again; any other exception leaves the function unlogged. The
  result is the world afterwards, the log and the exception or the folder id.
\<close>

definition folders_url :: "string \<Rightarrow> string" where
  "folders_url username = ''https://www.arcgis.com/sharing/rest/content/users/'' @ username"

definition list_folders_request :: "string \<Rightarrow> string \<Rightarrow> request" where
  "list_folders_request token username =
     (let params = [(''f'', Text ''json''), (''token'', Text token)]
      in Post (folders_url username) params)"

definition create_folder_request :: "string \<Rightarrow> string \<Rightarrow> string \<Rightarrow> request" where
  "create_folder_request token username folder_name =
     (let create_folder_url = folders_url username @ ''/createFolder'';
          create_params = [(''f'', Text ''json''), (''title'', Text folder_name),
                           (''token'', Text token)]
      in Post create_folder_url create_params)"





definition is_create_call :: "string \<Rightarrow> request \<Rightarrow> bool" where
  "is_create_call username rq = (req_url rq = folders_url username @ ''/createFolder'')"

section \<open>Service Provisioner\<close>











text \<open>An example table: the second row has no provenance.\<close>

definition ex_df :: dataframe where
  "ex_df = \<lparr>columns = [''Site Name'', ''Lat'', ''Lon'', ''LatLongSource''],
            dtypes = [Object, Float64, Float64, Object],
            rows = [(0, [VStr ''A'', VNum (Finite 49), VNum (Finite (-123)), VStr ''GPS'']),
                    (1, [VStr ''B'', VNum (Finite 50), VNum (Finite (-120)), VNone])],
            crs = None\<rparr>"

text \<open>
  More example tables: one whose second row has no longitude; the table of the spec's
  scenario, with a datetime-typed column whose one timestamp is 2023-05-01T00:00:00; and
  a table with one timestamp at midnight and one in the afternoon. \<open>ex_epsg\<close> is an
  excerpt of the EPSG registry.
\<close>

definition ex_bad :: dataframe where
  "ex_bad = \<lparr>columns = [''Name'', ''Lat'', ''Lon''],
             dtypes = [Object, Float64, Object],
             rows = [(0, [VStr ''A'', VNum (Finite 49), VNum (Finite (-123))]),
                     (1, [VStr ''B'', VNum (Finite 50), VNone])],
             crs = None\<rparr>"

definition ex_visits :: dataframe where
  "ex_visits = \<lparr>columns = [''Name'', ''Lat'', ''Lon'', ''LatLongSource'', ''Visited''],
             dtypes = [Object, Float64, Float64, Object, Datetime64],
             rows = [(0, [VStr ''A'', VNum (Finite 49), VNum (Finite (-123)), VStr ''GPS'',
                          VTime (Timestamp 2023 5 1 0 0 0 0)])],
             crs = None\<rparr>"

definition ex_visits2 :: dataframe where
  "ex_visits2 = \<lparr>columns = [''Name'', ''Lat'', ''Lon'', ''Visited''],
             dtypes = [Object, Float64, Float64, Datetime64],
             rows = [(0, [VStr ''A'', VNum (Finite 49), VNum (Finite (-123)),
                          VTime (Timestamp 2023 5 1 0 0 0 0)]),
                     (1, [VStr ''B'', VNum (Finite 50), VNum (Finite (-120)),
                          VTime (Timestamp 2023 5 2 13 45 10 0)])],
             crs = None\<rparr>"

definition ex_epsg :: "int \<Rightarrow> bool" where
  "ex_epsg code = (code \<in> set [3005, 3857, 4269, 4326])"

section \<open>Properties of the string functions\<close>

lemma replace_Nil [simp]: "old \<noteq> [] \<Longrightarrow> replace old new [] = []"
  by (simp add: replace.simps)

lemma replace_char_Cons:
  "replace [c] new (x # xs) = (if x = c then new @ replace [c] new xs else x # replace [c] new xs)"
  by (subst replace.simps) simp

lemma replace_char_remove: "replace [c] [] s = filter (\<lambda>x. x \<noteq> c) s"
  by (induction s) (simp_all add: replace_char_Cons)

lemma clean_name_filter: "clean_name name = filter (\<lambda>x. x \<notin> banned) name"
  unfolding clean_name_def special_characters_def banned_def
  by (simp add: replace_char_remove conj_commute conj_left_commute cong: filter_cong)

text \<open>What \<open>clean_name\<close> does to one name.\<close>

lemma clean_name_strips_banned:
  "set (clean_name name) \<inter> banned = {} \<and>
   clean_name name = filter (\<lambda>x. x \<notin> banned) name"
  using clean_name_filter [of name] by auto

section \<open>Properties of the Schema Sanitizer\<close>

lemma clean_name_idem: "clean_name (clean_name n) = clean_name n"
  by (simp add: clean_name_filter)

lemma clean_name_comp: "clean_name \<circ> clean_name = clean_name"
  by (rule ext) (simp add: clean_name_idem)

lemma prepare_unfold:
  "df < length s \<Longrightarrow>
   prepare_df_for_ago s df =
     (let renamed = (s ! df)\<lparr>columns := map clean_name (columns (s ! df))\<rparr> in
      case dropna [''LatLongSource''] renamed of
        Inl e \<Rightarrow> (s @ [renamed], Inl e)
      | Inr dropped \<Rightarrow> (s @ [renamed, dropped], Inr (Suc (length s))))"
  by (simp add: prepare_df_for_ago_def Let_def nth_append split: sum.splits)

lemma get_indexer_for_empty: "get_indexer_for cols c = [] \<longleftrightarrow> c \<notin> set cols"
  by (auto simp: get_indexer_for_def filter_empty_conv in_set_conv_nth)

lemma set_get_indexer_for: "set (get_indexer_for cols c) = {j. j < length cols \<and> cols ! j = c}"
  by (auto simp: get_indexer_for_def)

lemma dropna_single:
  "dropna [c] df =
     (if c \<in> set (columns df)
      then Inr (df\<lparr>rows := filter (\<lambda>r. list_all (\<lambda>j. \<not> isna (snd r ! j)) (get_indexer_for (columns df) c)) (rows df)\<rparr>)
      else Inl (KeyError [c]))"
  by (simp add: dropna_def get_indexer_for_empty)

lemma kept_iff_provenance:
  assumes "length (snd r) = length cols"
  shows "list_all (\<lambda>j. \<not> isna (snd r ! j)) (get_indexer_for cols ''LatLongSource'')
         \<longleftrightarrow> \<not> provenance_missing cols r"
proof -
  have "provenance_missing cols r \<longleftrightarrow>
        (\<exists>j<length cols. cols ! j = ''LatLongSource'' \<and> isna (snd r ! j))"
    unfolding provenance_missing_def list_ex_iff
  proof
    assume "\<exists>cv \<in> set (zip cols (snd r)). fst cv = ''LatLongSource'' \<and> isna (snd cv)"
    then obtain cv where cv: "cv \<in> set (zip cols (snd r))" "fst cv = ''LatLongSource''" "isna (snd cv)"
      by blast
    from cv(1) obtain n where "cols ! n = fst cv" "snd r ! n = snd cv" "n < length cols"
      by (auto simp: in_set_zip)
    with cv(2,3) show "\<exists>j<length cols. cols ! j = ''LatLongSource'' \<and> isna (snd r ! j)"
      by auto
  next
    assume "\<exists>j<length cols. cols ! j = ''LatLongSource'' \<and> isna (snd r ! j)"
    then obtain j where j: "j < length cols" "cols ! j = ''LatLongSource''" "isna (snd r ! j)"
      by blast
    then have "(cols ! j, snd r ! j) \<in> set (zip cols (snd r))"
      using assms by (auto simp: in_set_zip)
    with j(2,3) show "\<exists>cv \<in> set (zip cols (snd r)). fst cv = ''LatLongSource'' \<and> isna (snd cv)"
      by force
  qed
  then show ?thesis
    by (auto simp: list_all_iff set_get_indexer_for)
qed

lemma prepared_eq:
  "prepared df =
     (if ''LatLongSource'' \<in> set (map clean_name (columns df))
      then Inr (df\<lparr>columns := map clean_name (columns df),
                   rows := filter (\<lambda>r. list_all (\<lambda>j. \<not> isna (snd r ! j))
                      (get_indexer_for (map clean_name (columns df)) ''LatLongSource'')) (rows df)\<rparr>)
      else Inl (KeyError [''LatLongSource'']))"
  by (simp add: prepared_def prepare_unfold dropna_single Let_def del: set_map)

text \<open>
  C3. For every table whose cleaned column names include \<^verbatim>\<open>LatLongSource\<close>, the
  Schema Sanitizer returns a table, and its rows are exactly the input rows whose
  provenance field is not missing, in their order: the row count is the input row count
  minus the number of rows whose provenance field is missing.
\<close>

theorem sanitizer_row_count:
  assumes "wf_df df" and "''LatLongSource'' \<in> set (map clean_name (columns df))"
  shows "\<exists>out. prepared df = Inr out \<and>
           columns out = map clean_name (columns df) \<and>
           rows out = filter (\<lambda>r. \<not> provenance_missing (map clean_name (columns df)) r) (rows df) \<and>
           length (rows out) =
             length (rows df) - length (filter (provenance_missing (map clean_name (columns df))) (rows df))"
proof -
  let ?cols = "map clean_name (columns df)"
  let ?keep = "\<lambda>r. list_all (\<lambda>j. \<not> isna (snd r ! j)) (get_indexer_for ?cols ''LatLongSource'')"
  have len: "\<forall>r \<in> set (rows df). length (snd r) = length ?cols"
    using assms(1) by (simp add: wf_df_def list_all_iff)
  have eq: "filter ?keep (rows df) = filter (\<lambda>r. \<not> provenance_missing ?cols r) (rows df)"
    by (rule filter_cong[OF refl]) (use len kept_iff_provenance in blast)
  have cnt: "length (filter (\<lambda>r. \<not> provenance_missing ?cols r) (rows df)) =
      length (rows df) - length (filter (provenance_missing ?cols) (rows df))"
    using sum_length_filter_compl[of "provenance_missing ?cols" "rows df"] by arith
  show ?thesis
    using assms(2) eq cnt by (simp add: prepared_eq del: set_map)
qed

text \<open>
  C10. The Schema Sanitizer is idempotent: for every table whose cleaned column names
  include \<^verbatim>\<open>LatLongSource\<close>, the sanitizer returns a table, and applied to that table
  it returns the same table again.
\<close>

theorem sanitizer_idempotent:
  assumes "''LatLongSource'' \<in> set (map clean_name (columns df))"
  shows "\<exists>out. prepared df = Inr out \<and> prepared out = Inr out"
  using assms by (simp add: prepared_eq clean_name_comp del: set_map)

lemma ex_df_wf: "wf_df ex_df"
  by (simp add: ex_df_def wf_df_def)

lemma ex_df_cleaned: "map clean_name (columns ex_df) = [''SiteName'', ''Lat'', ''Lon'', ''LatLongSource'']"
  by (simp add: ex_df_def clean_name_filter banned_def)

lemma ex_df_prepared:
  "prepared ex_df = Inr \<lparr>columns = [''SiteName'', ''Lat'', ''Lon'', ''LatLongSource''],
            dtypes = [Object, Float64, Float64, Object],
            rows = [(0, [VStr ''A'', VNum (Finite 49), VNum (Finite (-123)), VStr ''GPS''])],
            crs = None\<rparr>"
  by (simp add: prepared_eq ex_df_cleaned get_indexer_for_def upt_rec del: set_map) (simp add: ex_df_def)

text \<open>
  C2. The Schema Sanitizer returns a table whenever the cleaned names include
  \<^verbatim>\<open>LatLongSource\<close>; and in every table it returns there is one column name for
  each input column name, with no occurrence of any of the characters \<open>( ) # -\<close>,
  space and apostrophe, and equal to the input name with exactly those characters
  deleted: every other character is kept, in its original order.
\<close>

theorem sanitizer_column_names:
  "(''LatLongSource'' \<in> set (map clean_name (columns df)) \<longrightarrow> (\<exists>out. prepared df = Inr out)) \<and>
   (\<forall>out. prepared df = Inr out \<longrightarrow>
      length (columns out) = length (columns df) \<and>
      (\<forall>j<length (columns df).
         set (columns out ! j) \<inter> banned = {} \<and>
         columns out ! j = filter (\<lambda>x. x \<notin> banned) (columns df ! j)))"
proof (intro conjI allI impI)
  assume "''LatLongSource'' \<in> set (map clean_name (columns df))"
  then show "\<exists>out. prepared df = Inr out"
    by (simp add: prepared_eq del: set_map)
next
  fix out
  assume "prepared df = Inr out"
  then have cols: "columns out = map clean_name (columns df)"
    by (auto simp: prepared_eq simp del: set_map split: if_splits)
  show "length (columns out) = length (columns df)"
    by (simp add: cols)
  fix j
  assume "j < length (columns df)"
  then have "columns out ! j = clean_name (columns df ! j)"
    by (simp add: cols)
  then show "set (columns out ! j) \<inter> banned = {}"
    and "columns out ! j = filter (\<lambda>x. x \<notin> banned) (columns df ! j)"
    by (auto simp: clean_name_filter)
qed

theorem sanitizer_column_names_witness:
  "''LatLongSource'' \<in> set (map clean_name (columns ex_df)) \<and>
   columns ex_df ! 0 = ''Site Name'' \<and>
   (\<exists>out. prepared ex_df = Inr out \<and> columns out ! 0 = ''SiteName'' \<and>
      set (columns out ! 0) \<inter> banned = {})"
proof -
  have h: "''LatLongSource'' \<in> set (map clean_name (columns ex_df))"
    by (simp add: ex_df_cleaned del: set_map)
  have c: "columns ex_df ! 0 = ''Site Name''" and l: "0 < length (columns ex_df)"
    by (simp_all add: ex_df_def)
  note t = sanitizer_column_names[of ex_df]
  from t h obtain out where p: "prepared ex_df = Inr out" by blast
  with t l have "set (columns out ! 0) \<inter> banned = {}"
    and "columns out ! 0 = filter (\<lambda>x. x \<notin> banned) (columns ex_df ! 0)"
    by blast+
  then have "set (columns out ! 0) \<inter> banned = {}" and "columns out ! 0 = ''SiteName''"
    by (simp_all add: c banned_def)
  with h c p show ?thesis by blast
qed

theorem sanitizer_row_count_witness:
  "wf_df ex_df \<and> ''LatLongSource'' \<in> set (map clean_name (columns ex_df)) \<and>
   (\<exists>out. prepared ex_df = Inr out \<and>
      columns out = map clean_name (columns ex_df) \<and>
      rows out = filter (\<lambda>r. \<not> provenance_missing (map clean_name (columns ex_df)) r) (rows ex_df) \<and>
      length (rows out) =
        length (rows ex_df) -
        length (filter (provenance_missing (map clean_name (columns ex_df))) (rows ex_df)))"
proof -
  have h: "''LatLongSource'' \<in> set (map clean_name (columns ex_df))"
    by (simp add: ex_df_cleaned del: set_map)
  from sanitizer_row_count [OF ex_df_wf h] ex_df_wf h show ?thesis
    by blast
qed

theorem sanitizer_idempotent_witness:
  "''LatLongSource'' \<in> set (map clean_name (columns ex_df)) \<and>
   (\<exists>out. prepared ex_df = Inr out \<and> prepared out = Inr out)"
proof -
  have h: "''LatLongSource'' \<in> set (map clean_name (columns ex_df))"
    by (simp add: ex_df_cleaned del: set_map)
  from sanitizer_idempotent [OF h] h show ?thesis
    by blast
qed

text \<open>
  C9, as amended. The Schema Sanitizer does not change the caller's table: after
  \<^verbatim>\<open>prepare_df_for_ago(df)\<close> every table that was in the store, the input among
  them, is as before, and the renamed columns and the filtered rows are those of the
  returned table, which is another table than the input.
\<close>

theorem sanitizer_returns_copy:
  assumes "df < length s" and "wf_df (s ! df)"
    and "''LatLongSource'' \<in> set (map clean_name (columns (s ! df)))"
  shows "\<exists>s' r. prepare_df_for_ago s df = (s', Inr r) \<and>
           take (length s) s' = s \<and> s' ! df = s ! df \<and> r \<noteq> df \<and> r < length s' \<and>
           columns (s' ! r) = map clean_name (columns (s ! df)) \<and>
           rows (s' ! r) =
             filter (\<lambda>r. \<not> provenance_missing (map clean_name (columns (s ! df))) r) (rows (s ! df))"
proof -
  let ?cols = "map clean_name (columns (s ! df))"
  let ?keep = "\<lambda>r. list_all (\<lambda>j. \<not> isna (snd r ! j)) (get_indexer_for ?cols ''LatLongSource'')"
  have len: "\<forall>r \<in> set (rows (s ! df)). length (snd r) = length ?cols"
    using assms(2) by (simp add: wf_df_def list_all_iff)
  have eq: "filter ?keep (rows (s ! df)) = filter (\<lambda>r. \<not> provenance_missing ?cols r) (rows (s ! df))"
    by (rule filter_cong[OF refl]) (use len kept_iff_provenance in blast)
  show ?thesis
    using assms(1,3) eq
    by (simp add: prepare_unfold dropna_single Let_def nth_append del: set_map)
qed

theorem sanitizer_returns_copy_witness:
  "(0::nat) < length [ex_df] \<and> wf_df ([ex_df] ! 0) \<and>
   ''LatLongSource'' \<in> set (map clean_name (columns ([ex_df] ! 0))) \<and>
   (\<exists>s' r. prepare_df_for_ago [ex_df] 0 = (s', Inr r) \<and>
      take (length [ex_df]) s' = [ex_df] \<and> s' ! 0 = [ex_df] ! 0 \<and> r \<noteq> 0 \<and> r < length s' \<and>
      columns (s' ! r) = map clean_name (columns ([ex_df] ! 0)) \<and>
      rows (s' ! r) =
        filter (\<lambda>r. \<not> provenance_missing (map clean_name (columns ([ex_df] ! 0))) r)
          (rows ([ex_df] ! 0)))"
proof -
  have h1: "(0::nat) < length [ex_df]" by simp
  have h2: "wf_df ([ex_df] ! 0)" by (simp add: ex_df_wf)
  have h3: "''LatLongSource'' \<in> set (map clean_name (columns ([ex_df] ! 0)))"
    by (simp add: ex_df_cleaned del: set_map)
  from sanitizer_returns_copy [OF h1 h2 h3] h1 h2 h3 show ?thesis
    by blast
qed

text \<open>
  C9 as stated fails: after the call on the example table, the caller's table still has
  the column \<^verbatim>\<open>Site Name\<close> and both of its rows; the cleaned names and the one kept
  row are in the returned table only.
\<close>

theorem sanitizer_in_place_counterexample:
  "snd (prepare_df_for_ago [ex_df] 0) = Inr 2 \<and>
   fst (prepare_df_for_ago [ex_df] 0) ! 0 = ex_df \<and>
   columns (fst (prepare_df_for_ago [ex_df] 0) ! 0) \<noteq> map clean_name (columns ex_df) \<and>
   length (rows (fst (prepare_df_for_ago [ex_df] 0) ! 0)) = 2 \<and>
   columns (fst (prepare_df_for_ago [ex_df] 0) ! 2) = map clean_name (columns ex_df) \<and>
   length (rows (fst (prepare_df_for_ago [ex_df] 0) ! 2)) = 1"
  by (simp add: prepare_unfold dropna_single Let_def ex_df_cleaned get_indexer_for_def upt_rec del: set_map)
     (simp add: ex_df_def)

section \<open>Properties of the Geometry Builder\<close>

lemma filter_eq_upt: "filter (\<lambda>k. k = j) [0..<n] = (if j < n then [j] else [])"
  by (induction n) auto

lemma get_indexer_for_distinct:
  assumes "distinct cols" and "j < length cols"
  shows "get_indexer_for cols (cols ! j) = [j]"
proof -
  have "filter (\<lambda>k. cols ! k = cols ! j) [0..<length cols] = filter (\<lambda>k. k = j) [0..<length cols]"
    by (rule filter_cong[OF refl]) (use assms in \<open>auto simp: nth_eq_iff_index_eq\<close>)
  then show ?thesis
    using assms(2) by (simp add: get_indexer_for_def filter_eq_upt)
qed

lemma get_indexer_for_cases:
  assumes "distinct cols"
  shows "(c \<notin> set cols \<and> get_indexer_for cols c = []) \<or>
         (\<exists>j<length cols. cols ! j = c \<and> get_indexer_for cols c = [j])"
proof (cases "c \<in> set cols")
  case True
  then obtain j where "j < length cols" "cols ! j = c"
    by (auto simp: in_set_conv_nth)
  then show ?thesis
    using get_indexer_for_distinct[OF assms, of j] by auto
next
  case False
  then show ?thesis
    by (simp add: get_indexer_for_empty)
qed

lemma traverse_Inr:
  "traverse f xs = Inr ys \<Longrightarrow>
   length ys = length xs \<and> (\<forall>i<length xs. f (xs ! i) = Inr (ys ! i))"
proof (induction xs arbitrary: ys)
  case Nil
  then show ?case by simp
next
  case (Cons a as)
  from Cons.prems obtain b bs where b: "f a = Inr b" "traverse f as = Inr bs" "ys = b # bs"
    by (auto split: sum.splits)
  with Cons.IH[OF b(2)] show ?case
    by (auto simp: nth_Cons split: nat.splits)
qed

lemma traverse_total:
  "(\<forall>a \<in> set xs. \<exists>b. f a = Inr b) \<Longrightarrow> \<exists>ys. traverse f xs = Inr ys"
  by (induction xs) auto

lemma traverse_Inl:
  "a \<in> set xs \<Longrightarrow> (\<exists>e. f a = Inl e) \<Longrightarrow> \<exists>e. traverse f xs = Inl e"
  by (induction xs) (auto split: sum.splits)

lemma setitem_at:
  assumes "get_indexer_for (columns df) c = [j]" and "length vs = length (rows df)"
  shows "columns (setitem df c dt vs) = columns df"
    and "dtypes (setitem df c dt vs) = (dtypes df)[j := dt]"
    and "rows (setitem df c dt vs) = map2 (\<lambda>r v. (fst r, (snd r)[j := v])) (rows df) vs"
    and "crs (setitem df c dt vs) = crs df"
  using assms by (simp_all add: setitem_def)

lemma setitem_new:
  assumes "get_indexer_for (columns df) c = []"
  shows "columns (setitem df c dt vs) = columns df @ [c]"
    and "dtypes (setitem df c dt vs) = dtypes df @ [dt]"
    and "rows (setitem df c dt vs) = map2 (\<lambda>r v. (fst r, snd r @ [v])) (rows df) vs"
    and "crs (setitem df c dt vs) = crs df"
  using assms by (simp_all add: setitem_def)

lemma converted_upto_refl: "converted_upto {} g g"
  by (simp add: converted_upto_def)

lemma wf_df_row: "wf_df df \<Longrightarrow> i < length (rows df) \<Longrightarrow> length (snd (rows df ! i)) = length (columns df)"
  by (simp add: wf_df_def list_all_length)

lemma convert_step:
  assumes wf: "wf_df g0" and dist: "distinct (columns g0)"
    and inv: "converted_upto S g0 g"
    and j: "j < length (columns g0)" and c: "c = columns g0 ! j" and fresh: "c \<notin> S"
  shows "converted_upto (insert c S) g0 (convert_if_datetime g c)"
proof -
  have cols: "columns g = columns g0" and nrows: "length (rows g) = length (rows g0)"
    and ndt: "length (dtypes g) = length (dtypes g0)"
    using inv by (simp_all add: converted_upto_def)
  have idx: "get_indexer_for (columns g) c = [j]"
    using get_indexer_for_distinct[OF dist j] by (simp add: cols c)
  have other: "\<And>k. k < length (columns g0) \<Longrightarrow> columns g0 ! k = c \<longleftrightarrow> k = j"
    using dist j c by (auto simp: nth_eq_iff_index_eq)
  have dtj: "dtypes g ! j = dtypes g0 ! j"
    using inv j fresh c by (simp add: converted_upto_def)
  have cellj: "\<And>i. i < length (rows g0) \<Longrightarrow> cell g i j = cell g0 i j"
    using inv j fresh c by (simp add: converted_upto_def)
  have colj: "column_cells g j = column_cells g0 j"
    by (rule nth_equalityI) (use nrows cellj in \<open>auto simp: column_cells_def cell_def\<close>)
  have rowlen: "\<And>i. i < length (rows g0) \<Longrightarrow> length (snd (rows g ! i)) = length (columns g0)"
    using inv wf_df_row[OF wf] by (simp add: converted_upto_def)
  show ?thesis
  proof (cases "dtypes g0 ! j = Datetime64")
    case False
    then have "convert_if_datetime g c = g"
      by (simp add: convert_if_datetime_def is_datetime64_any_dtype_def idx dtj)
    moreover have "converted_upto (insert c S) g0 g"
      using inv False other unfolding converted_upto_def by auto
    ultimately show ?thesis by simp
  next
    case True
    let ?vs = "astype_str (column_cells g j)"
    let ?g = "setitem g c Object ?vs"
    have lvs: "length ?vs = length (rows g)"
      by (simp add: astype_str_def column_cells_def)
    have eq: "convert_if_datetime g c = ?g"
      using True by (simp add: convert_if_datetime_def is_datetime64_any_dtype_def idx dtj)
    note si = setitem_at[OF idx lvs]
    have rowi: "\<And>i. i < length (rows g0) \<Longrightarrow>
        rows ?g ! i = (fst (rows g ! i),
                       (snd (rows g ! i))[j := text_cell (column_cells g0 j) (cell g0 i j)])"
    proof -
      fix i assume i: "i < length (rows g0)"
      have "?vs ! i = text_cell (column_cells g0 j) (cell g0 i j)"
        using i nrows cellj[OF i] by (simp add: astype_str_def colj) (simp add: column_cells_def cell_def)
      moreover have "i < length (rows g)" "i < length ?vs"
        using i nrows lvs by simp_all
      ultimately show "rows ?g ! i = (fst (rows g ! i),
                       (snd (rows g ! i))[j := text_cell (column_cells g0 j) (cell g0 i j)])"
        unfolding si(3) by simp
    qed
    have "converted_upto (insert c S) g0 ?g"
      unfolding converted_upto_def
    proof (intro conjI allI impI)
      show "columns ?g = columns g0" by (simp add: si cols)
      show "crs ?g = crs g0" using inv by (simp add: si converted_upto_def)
      show "length (rows ?g) = length (rows g0)" by (simp add: si lvs nrows)
      show "length (dtypes ?g) = length (dtypes g0)" by (simp add: si ndt)
    next
      fix k assume k: "k < length (columns g0)"
      show "dtypes ?g ! k =
          (if columns g0 ! k \<in> insert c S \<and> dtypes g0 ! k = Datetime64 then Object else dtypes g0 ! k)"
        using inv k j True other[OF k] ndt wf
        by (auto simp: si converted_upto_def nth_list_update wf_df_def)
    next
      fix i assume i: "i < length (rows g0)"
      show "fst (rows ?g ! i) = fst (rows g0 ! i)"
        using inv i by (simp add: rowi converted_upto_def)
      show "length (snd (rows ?g ! i)) = length (snd (rows g0 ! i))"
        using inv i by (simp add: rowi converted_upto_def)
    next
      fix i k assume i: "i < length (rows g0)" and k: "k < length (columns g0)"
      have "cell g i k = (if columns g0 ! k \<in> S \<and> dtypes g0 ! k = Datetime64
               then text_cell (column_cells g0 k) (cell g0 i k) else cell g0 i k)"
        using inv i k by (simp add: converted_upto_def)
      then show "cell ?g i k =
          (if columns g0 ! k \<in> insert c S \<and> dtypes g0 ! k = Datetime64
           then text_cell (column_cells g0 k) (cell g0 i k) else cell g0 i k)"
        using i k j True other[OF k] rowlen[OF i] rowi[OF i]
        by (auto simp: cell_def nth_list_update)
    qed
    with eq show ?thesis by simp
  qed
qed

lemma convert_all:
  assumes wf: "wf_df g0" and dist: "distinct (columns g0)"
  shows "distinct cs \<Longrightarrow> set cs \<subseteq> set (columns g0) \<Longrightarrow> set cs \<inter> S = {} \<Longrightarrow>
         converted_upto S g0 g \<Longrightarrow>
         converted_upto (S \<union> set cs) g0 (foldl (convert_if_datetime) g cs)"
proof (induction cs arbitrary: S g)
  case Nil
  then show ?case by simp
next
  case (Cons c cs)
  from Cons.prems(2) obtain j where j: "j < length (columns g0)" "c = columns g0 ! j"
    by (auto simp: in_set_conv_nth)
  have fresh: "c \<notin> S" using Cons.prems(3) by auto
  have step: "converted_upto (insert c S) g0 (convert_if_datetime g c)"
    by (rule convert_step[OF wf dist Cons.prems(4) j fresh])
  have "converted_upto (insert c S \<union> set cs) g0
          (foldl (convert_if_datetime) (convert_if_datetime g c) cs)"
    by (rule Cons.IH[OF _ _ _ step]) (use Cons.prems in auto)
  then show ?case by simp
qed

lemma setitem_spec:
  assumes wf: "wf_df df" and dist: "distinct (columns df)" and lvs: "length vs = length (rows df)"
  shows "wf_df (setitem df c dt vs)"
    and "distinct (columns (setitem df c dt vs))"
    and "length (rows (setitem df c dt vs)) = length (rows df)"
    and "\<exists>jc<length (columns (setitem df c dt vs)).
           get_indexer_for (columns (setitem df c dt vs)) c = [jc] \<and>
           dtypes (setitem df c dt vs) ! jc = dt \<and>
           (\<forall>i<length (rows df). cell (setitem df c dt vs) i jc = vs ! i)"
    and "\<forall>j<length (columns df). columns df ! j \<noteq> c \<longrightarrow>
           j < length (columns (setitem df c dt vs)) \<and>
           columns (setitem df c dt vs) ! j = columns df ! j \<and>
           dtypes (setitem df c dt vs) ! j = dtypes df ! j \<and>
           (\<forall>i<length (rows df). cell (setitem df c dt vs) i j = cell df i j)"
proof -
  let ?g = "setitem df c dt vs"
  have ndt: "length (dtypes df) = length (columns df)"
    using wf by (simp add: wf_df_def)
  note rl = wf_df_row[OF wf]
  consider (new) "c \<notin> set (columns df)" "get_indexer_for (columns df) c = []"
    | (old) j where "j < length (columns df)" "columns df ! j = c" "get_indexer_for (columns df) c = [j]"
    using get_indexer_for_cases[OF dist, of c] by blast
  then have "wf_df ?g \<and> distinct (columns ?g) \<and> length (rows ?g) = length (rows df) \<and>
     (\<exists>jc<length (columns ?g). get_indexer_for (columns ?g) c = [jc] \<and> dtypes ?g ! jc = dt \<and>
           (\<forall>i<length (rows df). cell ?g i jc = vs ! i)) \<and>
     (\<forall>j<length (columns df). columns df ! j \<noteq> c \<longrightarrow>
           j < length (columns ?g) \<and> columns ?g ! j = columns df ! j \<and>
           dtypes ?g ! j = dtypes df ! j \<and>
           (\<forall>i<length (rows df). cell ?g i j = cell df i j))"
  proof cases
    case new
    note si = setitem_new[OF new(2), of dt vs]
    have d: "distinct (columns df @ [c])" using dist new(1) by simp
    have ix: "get_indexer_for (columns df @ [c]) c = [length (columns df)]"
      using get_indexer_for_distinct[OF d, of "length (columns df)"] by simp
    have rowi: "\<And>i. i < length (rows df) \<Longrightarrow> rows ?g ! i = (fst (rows df ! i), snd (rows df ! i) @ [vs ! i])"
      unfolding si(3) using lvs by simp
    have "wf_df ?g"
      using lvs ndt rl by (simp add: wf_df_def list_all_length si(1,2)) (simp add: si(3))
    moreover have "\<forall>i<length (rows df). cell ?g i (length (columns df)) = vs ! i"
      using rl by (auto simp: cell_def rowi nth_append)
    moreover have "\<forall>j<length (columns df). \<forall>i<length (rows df). cell ?g i j = cell df i j"
      using rl by (simp add: cell_def rowi nth_append)
    ultimately show ?thesis
      using d ix ndt lvs by (simp add: si nth_append)
  next
    case old
    note si = setitem_at[OF old(3) lvs, of dt]
    have ne: "\<And>k. columns df ! k \<noteq> c \<Longrightarrow> j \<noteq> k"
      using old(2) by blast
    have rowi: "\<And>i. i < length (rows df) \<Longrightarrow> rows ?g ! i = (fst (rows df ! i), (snd (rows df ! i))[j := vs ! i])"
      unfolding si(3) using lvs by simp
    have "wf_df ?g"
      using lvs ndt rl by (simp add: wf_df_def list_all_length si(1,2)) (simp add: si(3))
    moreover have "\<forall>i<length (rows df). cell ?g i j = vs ! i"
      using rl old(1) by (simp add: cell_def rowi)
    moreover have "\<forall>k<length (columns df). columns df ! k \<noteq> c \<longrightarrow>
        (\<forall>i<length (rows df). cell ?g i k = cell df i k)"
      using ne by (simp add: cell_def rowi)
    moreover have "\<forall>k<length (columns df). columns df ! k \<noteq> c \<longrightarrow> dtypes ?g ! k = dtypes df ! k"
      using ne by (simp add: si)
    ultimately show ?thesis
      using dist old ndt lvs by (simp add: si)
  qed
  then show "wf_df ?g" "distinct (columns ?g)" "length (rows ?g) = length (rows df)"
    "\<exists>jc<length (columns ?g). get_indexer_for (columns ?g) c = [jc] \<and> dtypes ?g ! jc = dt \<and>
           (\<forall>i<length (rows df). cell ?g i jc = vs ! i)"
    "\<forall>j<length (columns df). columns df ! j \<noteq> c \<longrightarrow>
           j < length (columns ?g) \<and> columns ?g ! j = columns df ! j \<and>
           dtypes ?g ! j = dtypes df ! j \<and>
           (\<forall>i<length (rows df). cell ?g i j = cell df i j)"
    by blast+
qed

lemma crs_update_simps [simp]:
  "wf_df (g\<lparr>crs := v\<rparr>) = wf_df g"
  "cell (g\<lparr>crs := v\<rparr>) = cell g"
  "column_cells (g\<lparr>crs := v\<rparr>) = column_cells g"
  by (simp_all add: wf_df_def cell_def column_cells_def fun_eq_iff)

lemma df_to_gdf_Inr:
  assumes "df_to_gdf valid_epsg parse df lat_col lon_col crs_code = Inr gdf"
  obtains lons lats geometry g where
    "getitem_iter df lon_col = Inr lons" "getitem_iter df lat_col = Inr lats"
    "traverse (shapely_Point parse) (zip lons lats) = Inr geometry"
    "length geometry = length (rows df)"
    "g = setitem df ''geometry'' GeometryDtype (map VGeom geometry)"
    "gdf = foldl convert_if_datetime (g\<lparr>crs := Some crs_code\<rparr>) (columns g)"
    "valid_epsg crs_code"
  using assms
  by (auto simp: df_to_gdf_def GeoDataFrame_def set_crs_def split: sum.splits if_splits)

lemma getitem_iter_at:
  assumes "distinct (columns df)" and "j < length (columns df)"
  shows "getitem_iter df (columns df ! j) = Inr (column_cells df j)"
  by (simp add: getitem_iter_def get_indexer_for_distinct[OF assms])

text \<open>What the loop over the columns leaves, in terms of the frame before the loop.\<close>

lemma convert_columns:
  assumes wf: "wf_df g" and dist: "distinct (columns g)"
  shows "converted_upto (set (columns g)) (g\<lparr>crs := v\<rparr>)
           (foldl convert_if_datetime (g\<lparr>crs := v\<rparr>) (columns g))"
proof -
  have "converted_upto ({} \<union> set (columns g)) (g\<lparr>crs := v\<rparr>)
           (foldl convert_if_datetime (g\<lparr>crs := v\<rparr>) (columns g))"
    by (rule convert_all) (use wf dist in \<open>simp_all add: converted_upto_refl\<close>)
  then show ?thesis by simp
qed

lemma df_to_gdf_result:
  assumes wf: "wf_df df" and dist: "distinct (columns df)"
    and run: "df_to_gdf valid_epsg parse df lat_col lon_col crs_code = Inr gdf"
  obtains lons lats geometry where
    "getitem_iter df lon_col = Inr lons" "getitem_iter df lat_col = Inr lats"
    "traverse (shapely_Point parse) (zip lons lats) = Inr geometry"
    "length geometry = length (rows df)"
    "length (rows gdf) = length (rows df)"
    "\<forall>i<length (rows df). geometry_at gdf i = VGeom (geometry ! i)"
    "\<forall>j<length (columns df). columns df ! j \<noteq> ''geometry'' \<longrightarrow>
        j < length (columns gdf) \<and> columns gdf ! j = columns df ! j \<and>
        dtypes gdf ! j = (if dtypes df ! j = Datetime64 then Object else dtypes df ! j) \<and>
        (\<forall>i<length (rows df). cell gdf i j =
            (if dtypes df ! j = Datetime64 then text_cell (column_cells df j) (cell df i j)
             else cell df i j))"
    "\<forall>j<length (columns gdf). dtypes gdf ! j \<noteq> Datetime64"
proof -
  from run obtain lons lats geometry g where r:
    "getitem_iter df lon_col = Inr lons" "getitem_iter df lat_col = Inr lats"
    "traverse (shapely_Point parse) (zip lons lats) = Inr geometry"
    "length geometry = length (rows df)"
    "g = setitem df ''geometry'' GeometryDtype (map VGeom geometry)"
    "gdf = foldl convert_if_datetime (g\<lparr>crs := Some crs_code\<rparr>) (columns g)"
    "valid_epsg crs_code"
    by (rule df_to_gdf_Inr)
  have lvs: "length (map VGeom geometry) = length (rows df)" using r(4) by simp
  note sp = setitem_spec[OF wf dist lvs, of "''geometry''" GeometryDtype, folded r(5)]
  from sp(4) obtain jg where jg: "jg < length (columns g)"
      "get_indexer_for (columns g) ''geometry'' = [jg]" "dtypes g ! jg = GeometryDtype"
      "\<forall>i<length (rows df). cell g i jg = map VGeom geometry ! i"
    by blast
  have cu: "converted_upto (set (columns g)) (g\<lparr>crs := Some crs_code\<rparr>) gdf"
    unfolding r(6) by (rule convert_columns[OF sp(1,2)])
  have cols: "columns gdf = columns g" and nr: "length (rows gdf) = length (rows df)"
    using cu sp(3) by (simp_all add: converted_upto_def)
  have dt: "\<And>j. j < length (columns g) \<Longrightarrow>
      dtypes gdf ! j = (if dtypes g ! j = Datetime64 then Object else dtypes g ! j)"
    using cu by (simp add: converted_upto_def)
  have ce: "\<And>i j. i < length (rows df) \<Longrightarrow> j < length (columns g) \<Longrightarrow>
      cell gdf i j = (if dtypes g ! j = Datetime64
               then text_cell (column_cells g j) (cell g i j) else cell g i j)"
    using cu sp(3) by (simp add: converted_upto_def)
  have g1: "\<forall>i<length (rows df). geometry_at gdf i = VGeom (geometry ! i)"
    using jg r(4) by (simp add: geometry_at_def cols ce)
  have cc: "\<And>j. j < length (columns df) \<Longrightarrow> columns df ! j \<noteq> ''geometry'' \<Longrightarrow>
      column_cells g j = column_cells df j"
  proof -
    fix j assume "j < length (columns df)" "columns df ! j \<noteq> ''geometry''"
    with sp(5) have "\<forall>i<length (rows df). cell g i j = cell df i j" by blast
    then show "column_cells g j = column_cells df j"
      using sp(3) by (intro nth_equalityI) (auto simp: column_cells_def cell_def)
  qed
  have g2: "\<forall>j<length (columns df). columns df ! j \<noteq> ''geometry'' \<longrightarrow>
        j < length (columns gdf) \<and> columns gdf ! j = columns df ! j \<and>
        dtypes gdf ! j = (if dtypes df ! j = Datetime64 then Object else dtypes df ! j) \<and>
        (\<forall>i<length (rows df). cell gdf i j =
            (if dtypes df ! j = Datetime64 then text_cell (column_cells df j) (cell df i j)
             else cell df i j))"
    using sp(5) cc by (simp add: cols dt ce)
  have g3: "\<forall>j<length (columns gdf). dtypes gdf ! j \<noteq> Datetime64"
    by (simp add: cols dt)
  show thesis
    by (rule that[OF r(1,2,3,4) nr g1 g2 g3])
qed

lemma df_to_gdf_total:
  assumes wf: "wf_df df" and dist: "distinct (columns df)"
    and jx: "jx < length (columns df)" and jy: "jy < length (columns df)"
    and num: "\<forall>i<length (rows df). \<exists>a b. cell df i jx = VNum a \<and> cell df i jy = VNum b"
    and ok: "valid_epsg crs_code"
  shows "\<exists>gdf. df_to_gdf valid_epsg parse df (columns df ! jy) (columns df ! jx) crs_code = Inr gdf"
proof -
  let ?xy = "zip (column_cells df jx) (column_cells df jy)"
  have "\<forall>p \<in> set ?xy. \<exists>g. shapely_Point parse p = Inr g"
  proof
    fix p assume "p \<in> set ?xy"
    then obtain i where i: "i < length (rows df)" "p = (cell df i jx, cell df i jy)"
      by (auto simp: in_set_zip column_cells_def cell_def)
    with num obtain a b where "cell df i jx = VNum a" "cell df i jy = VNum b" by blast
    with i(2) show "\<exists>g. shapely_Point parse p = Inr g"
      by (simp add: shapely_Point_def)
  qed
  then obtain geometry where g: "traverse (shapely_Point parse) ?xy = Inr geometry"
    using traverse_total by blast
  have "length geometry = length (rows df)"
    using traverse_Inr[OF g] by (simp add: column_cells_def)
  then show ?thesis
    using ok
    by (simp add: df_to_gdf_def getitem_iter_at[OF dist jx] getitem_iter_at[OF dist jy] g
        GeoDataFrame_def set_crs_def)
qed

lemma df_to_gdf_unreadable:
  assumes dist: "distinct (columns df)"
    and jx: "jx < length (columns df)" and jy: "jy < length (columns df)"
    and i: "i < length (rows df)"
    and bad: "(\<exists>e. py_float parse (cell df i jx) = Inl e) \<or>
              (\<exists>e. py_float parse (cell df i jy) = Inl e)"
  shows "\<exists>e. df_to_gdf valid_epsg parse df (columns df ! jy) (columns df ! jx) crs_code = Inl e"
proof -
  let ?xy = "zip (column_cells df jx) (column_cells df jy)"
  have "?xy ! i = (cell df i jx, cell df i jy)" and "i < length ?xy"
    using i by (simp_all add: column_cells_def cell_def)
  then have mem: "(cell df i jx, cell df i jy) \<in> set ?xy"
    by (metis nth_mem)
  have "\<exists>e. shapely_Point parse (cell df i jx, cell df i jy) = Inl e"
    using bad by (auto simp: shapely_Point_def split: sum.splits)
  with mem have "\<exists>e. traverse (shapely_Point parse) ?xy = Inl e"
    by (rule traverse_Inl)
  then obtain e where "traverse (shapely_Point parse) ?xy = Inl e" by blast
  then show ?thesis
    by (simp add: df_to_gdf_def getitem_iter_at[OF dist jx] getitem_iter_at[OF dist jy])
qed

lemma df_to_gdf_bad_crs:
  assumes "\<not> valid_epsg crs_code"
  shows "\<exists>e. df_to_gdf valid_epsg parse df lat_col lon_col crs_code = Inl e"
  using assms
  by (simp add: df_to_gdf_def GeoDataFrame_def set_crs_def split: sum.splits)

text \<open>
  C1, as amended. For every table whose longitude and latitude cells are all numbers, and
  a code the EPSG registry knows, the Geometry Builder returns a spatial table; whenever
  it returns one, that table has one row per input row, and for every row whose longitude
  and latitude cells are numbers, the geometry of the row is the point whose x is the
  longitude and whose y is the latitude; whenever the longitude or the latitude of some
  row cannot be read as a number, the Geometry Builder raises, so that no row gets a
  geometry; and it raises as well when the registry does not know the code.
\<close>

theorem geometry_builder_points:
  assumes wf: "wf_df df" and dist: "distinct (columns df)"
    and jx: "jx < length (columns df)" and jy: "jy < length (columns df)"
  shows "(valid_epsg crs_code \<and>
          (\<forall>i<length (rows df). \<exists>a b. cell df i jx = VNum a \<and> cell df i jy = VNum b) \<longrightarrow>
            (\<exists>gdf. df_to_gdf valid_epsg parse df (columns df ! jy) (columns df ! jx) crs_code = Inr gdf)) \<and>
         (\<forall>gdf. df_to_gdf valid_epsg parse df (columns df ! jy) (columns df ! jx) crs_code = Inr gdf \<longrightarrow>
            length (rows gdf) = length (rows df) \<and>
            (\<forall>i<length (rows df). \<forall>a b. cell df i jx = VNum a \<and> cell df i jy = VNum b \<longrightarrow>
               geometry_at gdf i = VGeom (Point a b))) \<and>
         ((\<exists>i<length (rows df). (\<exists>e. py_float parse (cell df i jx) = Inl e) \<or>
                                  (\<exists>e. py_float parse (cell df i jy) = Inl e)) \<longrightarrow>
            (\<exists>e. df_to_gdf valid_epsg parse df (columns df ! jy) (columns df ! jx) crs_code = Inl e)) \<and>
         (\<not> valid_epsg crs_code \<longrightarrow>
            (\<exists>e. df_to_gdf valid_epsg parse df (columns df ! jy) (columns df ! jx) crs_code = Inl e))"
proof (intro conjI allI impI)
  assume "valid_epsg crs_code \<and>
          (\<forall>i<length (rows df). \<exists>a b. cell df i jx = VNum a \<and> cell df i jy = VNum b)"
  then show "\<exists>gdf. df_to_gdf valid_epsg parse df (columns df ! jy) (columns df ! jx) crs_code = Inr gdf"
    using df_to_gdf_total[OF wf dist jx jy] by blast
next
  fix gdf
  assume run: "df_to_gdf valid_epsg parse df (columns df ! jy) (columns df ! jx) crs_code = Inr gdf"
  obtain lons lats geometry where
    r1: "getitem_iter df (columns df ! jx) = Inr lons" and r2: "getitem_iter df (columns df ! jy) = Inr lats"
    and r3: "traverse (shapely_Point parse) (zip lons lats) = Inr geometry"
    and r4: "length geometry = length (rows df)"
    and nr: "length (rows gdf) = length (rows df)"
    and geo: "\<forall>i<length (rows df). geometry_at gdf i = VGeom (geometry ! i)"
    and cs: "\<forall>j<length (columns df). columns df ! j \<noteq> ''geometry'' \<longrightarrow>
        j < length (columns gdf) \<and> columns gdf ! j = columns df ! j \<and>
        dtypes gdf ! j = (if dtypes df ! j = Datetime64 then Object else dtypes df ! j) \<and>
        (\<forall>i<length (rows df). cell gdf i j =
            (if dtypes df ! j = Datetime64 then text_cell (column_cells df j) (cell df i j)
             else cell df i j))"
    and nd: "\<forall>j<length (columns gdf). dtypes gdf ! j \<noteq> Datetime64"
    by (rule df_to_gdf_result[OF wf dist run])
  show "length (rows gdf) = length (rows df)"
    by (rule nr)
next
  fix gdf i a b
  assume run: "df_to_gdf valid_epsg parse df (columns df ! jy) (columns df ! jx) crs_code = Inr gdf"
    and i: "i < length (rows df)" and ab: "cell df i jx = VNum a \<and> cell df i jy = VNum b"
  obtain lons lats geometry where
    r1: "getitem_iter df (columns df ! jx) = Inr lons" and r2: "getitem_iter df (columns df ! jy) = Inr lats"
    and r3: "traverse (shapely_Point parse) (zip lons lats) = Inr geometry"
    and r4: "length geometry = length (rows df)"
    and nr: "length (rows gdf) = length (rows df)"
    and geo: "\<forall>i<length (rows df). geometry_at gdf i = VGeom (geometry ! i)"
    and cs: "\<forall>j<length (columns df). columns df ! j \<noteq> ''geometry'' \<longrightarrow>
        j < length (columns gdf) \<and> columns gdf ! j = columns df ! j \<and>
        dtypes gdf ! j = (if dtypes df ! j = Datetime64 then Object else dtypes df ! j) \<and>
        (\<forall>i<length (rows df). cell gdf i j =
            (if dtypes df ! j = Datetime64 then text_cell (column_cells df j) (cell df i j)
             else cell df i j))"
    and nd: "\<forall>j<length (columns gdf). dtypes gdf ! j \<noteq> Datetime64"
    by (rule df_to_gdf_result[OF wf dist run])
  have lons: "lons = column_cells df jx" and lats: "lats = column_cells df jy"
    using r1 r2 by (simp_all add: getitem_iter_at[OF dist jx] getitem_iter_at[OF dist jy])
  have "shapely_Point parse (zip lons lats ! i) = Inr (geometry ! i)"
    using traverse_Inr[OF r3] i by (simp add: lons lats column_cells_def)
  moreover have "zip lons lats ! i = (VNum a, VNum b)"
    using i ab by (simp add: lons lats column_cells_def cell_def)
  ultimately have "geometry ! i = Point a b"
    by (simp add: shapely_Point_def)
  with geo i show "geometry_at gdf i = VGeom (Point a b)" by simp
next
  assume "\<exists>i<length (rows df). (\<exists>e. py_float parse (cell df i jx) = Inl e) \<or>
                                  (\<exists>e. py_float parse (cell df i jy) = Inl e)"
  then obtain i where "i < length (rows df)"
      "(\<exists>e. py_float parse (cell df i jx) = Inl e) \<or> (\<exists>e. py_float parse (cell df i jy) = Inl e)"
    by blast
  then show "\<exists>e. df_to_gdf valid_epsg parse df (columns df ! jy) (columns df ! jx) crs_code = Inl e"
    by (rule df_to_gdf_unreadable[OF dist jx jy])
next
  assume "\<not> valid_epsg crs_code"
  then show "\<exists>e. df_to_gdf valid_epsg parse df (columns df ! jy) (columns df ! jx) crs_code = Inl e"
    by (rule df_to_gdf_bad_crs)
qed

lemma ex_df_numeric:
  "\<forall>i<length (rows ex_df). \<exists>a b. cell ex_df i 2 = VNum a \<and> cell ex_df i 1 = VNum b"
  by (simp add: ex_df_def cell_def less_Suc_eq)

lemma ex_epsg_4326: "ex_epsg 4326"
  by (simp add: ex_epsg_def)

theorem geometry_builder_points_witness:
  "wf_df ex_df \<and> distinct (columns ex_df) \<and> 2 < length (columns ex_df) \<and> 1 < length (columns ex_df) \<and>
   ex_epsg 4326 \<and>
   (\<exists>gdf. df_to_gdf ex_epsg (\<lambda>s. None) ex_df ''Lat'' ''Lon'' 4326 = Inr gdf \<and>
      length (rows gdf) = 2 \<and>
      geometry_at gdf 0 = VGeom (Point (Finite (-123)) (Finite 49)) \<and>
      geometry_at gdf 1 = VGeom (Point (Finite (-120)) (Finite 50))) \<and>
   cell ex_bad 1 2 = VNone \<and>
   (\<exists>e. df_to_gdf ex_epsg (\<lambda>s. None) ex_bad ''Lat'' ''Lon'' 4326 = Inl e)"
proof -
  have d: "distinct (columns ex_df)" by (simp add: ex_df_def)
  have jx: "2 < length (columns ex_df)" and jy: "1 < length (columns ex_df)"
    by (simp_all add: ex_df_def)
  note t = geometry_builder_points[OF ex_df_wf d jx jy, of ex_epsg 4326 "\<lambda>s. None"]
  have names: "columns ex_df ! 1 = ''Lat''" "columns ex_df ! 2 = ''Lon''"
    by (simp_all add: ex_df_def)
  from t ex_df_numeric ex_epsg_4326 obtain gdf where
    run: "df_to_gdf ex_epsg (\<lambda>s. None) ex_df ''Lat'' ''Lon'' 4326 = Inr gdf"
    unfolding names by blast
  from t run have len: "length (rows gdf) = length (rows ex_df)"
    and pts: "\<forall>i<length (rows ex_df). \<forall>a b. cell ex_df i 2 = VNum a \<and> cell ex_df i 1 = VNum b \<longrightarrow>
               geometry_at gdf i = VGeom (Point a b)"
    unfolding names by blast+
  have p0: "geometry_at gdf 0 = VGeom (Point (Finite (-123)) (Finite 49))"
    using pts[rule_format, of 0] by (simp add: ex_df_def cell_def)
  have p1: "geometry_at gdf 1 = VGeom (Point (Finite (-120)) (Finite 50))"
    using pts[rule_format, of 1] by (simp add: ex_df_def cell_def)
  have l2: "length (rows gdf) = 2" using len by (simp add: ex_df_def)
  have bw: "wf_df ex_bad" by (simp add: ex_bad_def wf_df_def)
  have bd: "distinct (columns ex_bad)" by (simp add: ex_bad_def)
  have bx: "2 < length (columns ex_bad)" and bj: "1 < length (columns ex_bad)"
    by (simp_all add: ex_bad_def)
  have bnames: "columns ex_bad ! 1 = ''Lat''" "columns ex_bad ! 2 = ''Lon''"
    by (simp_all add: ex_bad_def)
  have bcell: "cell ex_bad 1 2 = VNone" by (simp add: ex_bad_def cell_def)
  have blen: "1 < length (rows ex_bad)" by (simp add: ex_bad_def)
  have "\<exists>e. py_float (\<lambda>s. None) (cell ex_bad 1 2) = Inl e"
    unfolding bcell by simp
  with blen have "\<exists>i<length (rows ex_bad). (\<exists>e. py_float (\<lambda>s. None) (cell ex_bad i 2) = Inl e) \<or>
                                  (\<exists>e. py_float (\<lambda>s. None) (cell ex_bad i 1) = Inl e)"
    by blast
  with geometry_builder_points[OF bw bd bx bj, of ex_epsg 4326 "\<lambda>s. None"]
  have raise: "\<exists>e. df_to_gdf ex_epsg (\<lambda>s. None) ex_bad ''Lat'' ''Lon'' 4326 = Inl e"
    unfolding bnames by blast
  from ex_df_wf d jx jy ex_epsg_4326 run l2 p0 p1 bcell raise show ?thesis
    by blast
qed

text \<open>
  C1 as stated fails: the first row of the example table has numeric longitude and
  latitude, the second row has no longitude, and the Geometry Builder raises on the
  table; no geometry is produced for the first row. (No text is read as a number here,
  so the parser is not consulted.)
\<close>

theorem geometry_builder_abort_counterexample:
  "cell ex_bad 0 2 = VNum (Finite (-123)) \<and> cell ex_bad 0 1 = VNum (Finite 49) \<and>
   df_to_gdf ex_epsg (\<lambda>s. None) ex_bad ''Lat'' ''Lon'' 4326 = Inl TypeError"
  by (simp add: ex_bad_def cell_def df_to_gdf_def getitem_iter_def get_indexer_for_def upt_rec
      column_cells_def shapely_Point_def)

text \<open>
  C4, as amended. In the table the Geometry Builder returns, every column of the input
  that was datetime-typed has dtype object and holds, in each row, the text pandas writes
  for the value it held: for a timestamp the date alone when every timestamp of the
  column is at midnight, else date and time separated by a space, and \<^verbatim>\<open>NaT\<close> for
  the missing timestamp. Every other column of the input has its dtype and its cells
  unchanged, and no column is datetime-typed any more. (The column named
  \<^verbatim>\<open>geometry\<close> is the one the builder writes.)
\<close>

theorem geometry_builder_temporal_columns:
  assumes wf: "wf_df df" and dist: "distinct (columns df)"
    and run: "df_to_gdf valid_epsg parse df lat_col lon_col crs_code = Inr gdf"
    and j: "j < length (columns df)" and name: "columns df ! j \<noteq> ''geometry''"
  shows "columns gdf ! j = columns df ! j \<and>
         (if dtypes df ! j = Datetime64
          then dtypes gdf ! j = Object \<and>
               (\<forall>i<length (rows df). \<forall>t. cell df i j = VTime t \<longrightarrow>
                  cell gdf i j =
                    VStr (if list_all is_date_only (column_cells df j) then date_text t
                          else date_text t @ '' '' @ time_text t @
                               fraction_text (column_cells df j) t)) \<and>
               (\<forall>i<length (rows df). cell df i j = VNaT \<longrightarrow> cell gdf i j = VStr ''NaT'')
          else dtypes gdf ! j = dtypes df ! j \<and>
               (\<forall>i<length (rows df). cell gdf i j = cell df i j)) \<and>
         length (rows gdf) = length (rows df) \<and>
         (\<forall>k<length (columns gdf). dtypes gdf ! k \<noteq> Datetime64)"
proof -
  obtain lons lats geometry where
    r1: "getitem_iter df lon_col = Inr lons" and r2: "getitem_iter df lat_col = Inr lats"
    and r3: "traverse (shapely_Point parse) (zip lons lats) = Inr geometry"
    and r4: "length geometry = length (rows df)"
    and nr: "length (rows gdf) = length (rows df)"
    and geo: "\<forall>i<length (rows df). geometry_at gdf i = VGeom (geometry ! i)"
    and cs: "\<forall>j<length (columns df). columns df ! j \<noteq> ''geometry'' \<longrightarrow>
        j < length (columns gdf) \<and> columns gdf ! j = columns df ! j \<and>
        dtypes gdf ! j = (if dtypes df ! j = Datetime64 then Object else dtypes df ! j) \<and>
        (\<forall>i<length (rows df). cell gdf i j =
            (if dtypes df ! j = Datetime64 then text_cell (column_cells df j) (cell df i j)
             else cell df i j))"
    and nd: "\<forall>j<length (columns gdf). dtypes gdf ! j \<noteq> Datetime64"
    by (rule df_to_gdf_result[OF wf dist run])
  from cs j name have "columns gdf ! j = columns df ! j \<and>
        dtypes gdf ! j = (if dtypes df ! j = Datetime64 then Object else dtypes df ! j) \<and>
        (\<forall>i<length (rows df). cell gdf i j =
            (if dtypes df ! j = Datetime64 then text_cell (column_cells df j) (cell df i j)
             else cell df i j))"
    by blast
  then show ?thesis
    using nr nd by (simp add: datetime_text_def)
qed

lemma ex_date_text:
  "date_text (Timestamp 2023 5 1 0 0 0 0) = ''2023-05-01''"
  "date_text (Timestamp 2023 5 2 13 45 10 0) = ''2023-05-02''"
  "time_text (Timestamp 2023 5 1 0 0 0 0) = ''00:00:00''"
  "time_text (Timestamp 2023 5 2 13 45 10 0) = ''13:45:10''"
  "date_text (Timestamp 2023 5 (Suc 0) 0 0 0 0) = ''2023-05-01''"
  "time_text (Timestamp 2023 5 (Suc 0) 0 0 0 0) = ''00:00:00''"
  by (simp_all add: date_text_def time_text_def zfill_def show_nat.simps digit_def)

lemma df_to_gdf_cell:
  assumes wf: "wf_df df" and dist: "distinct (columns df)"
    and run: "df_to_gdf valid_epsg parse df lat_col lon_col crs_code = Inr gdf"
    and j: "j < length (columns df)" and name: "columns df ! j \<noteq> ''geometry''"
    and dt: "dtypes df ! j = Datetime64" and i: "i < length (rows df)"
  shows "cell gdf i j = text_cell (column_cells df j) (cell df i j)"
proof -
  obtain lons lats geometry where
    r1: "getitem_iter df lon_col = Inr lons" and r2: "getitem_iter df lat_col = Inr lats"
    and r3: "traverse (shapely_Point parse) (zip lons lats) = Inr geometry"
    and r4: "length geometry = length (rows df)"
    and nr: "length (rows gdf) = length (rows df)"
    and geo: "\<forall>i<length (rows df). geometry_at gdf i = VGeom (geometry ! i)"
    and cs: "\<forall>j<length (columns df). columns df ! j \<noteq> ''geometry'' \<longrightarrow>
        j < length (columns gdf) \<and> columns gdf ! j = columns df ! j \<and>
        dtypes gdf ! j = (if dtypes df ! j = Datetime64 then Object else dtypes df ! j) \<and>
        (\<forall>i<length (rows df). cell gdf i j =
            (if dtypes df ! j = Datetime64 then text_cell (column_cells df j) (cell df i j)
             else cell df i j))"
    and nd: "\<forall>j<length (columns gdf). dtypes gdf ! j \<noteq> Datetime64"
    by (rule df_to_gdf_result[OF wf dist run])
  from cs j name dt i show ?thesis by simp
qed

lemma ex_visits_wf: "wf_df ex_visits"
  by (simp add: ex_visits_def wf_df_def)

lemma ex_visits2_wf: "wf_df ex_visits2"
  by (simp add: ex_visits2_def wf_df_def)

theorem geometry_builder_temporal_columns_witness:
  "wf_df ex_visits2 \<and> distinct (columns ex_visits2) \<and>
   3 < length (columns ex_visits2) \<and> columns ex_visits2 ! 3 \<noteq> ''geometry'' \<and>
   (\<exists>gdf. df_to_gdf ex_epsg (\<lambda>s. None) ex_visits2 ''Lat'' ''Lon'' 4326 = Inr gdf \<and>
      columns gdf ! 3 = ''Visited'' \<and> dtypes gdf ! 3 = Object \<and>
      cell gdf 0 3 = VStr ''2023-05-01 00:00:00'' \<and>
      cell gdf 1 3 = VStr ''2023-05-02 13:45:10'')"
proof -
  have d: "distinct (columns ex_visits2)" by (simp add: ex_visits2_def)
  have j: "3 < length (columns ex_visits2)" and n: "columns ex_visits2 ! 3 \<noteq> ''geometry''"
    by (simp_all add: ex_visits2_def)
  have jx: "2 < length (columns ex_visits2)" and jy: "1 < length (columns ex_visits2)"
    by (simp_all add: ex_visits2_def)
  have num: "\<forall>i<length (rows ex_visits2). \<exists>a b. cell ex_visits2 i 2 = VNum a \<and> cell ex_visits2 i 1 = VNum b"
    by (simp add: ex_visits2_def cell_def less_Suc_eq)
  from df_to_gdf_total[where valid_epsg=ex_epsg and crs_code=4326 and parse="\<lambda>s. None",
      OF ex_visits2_wf d jx jy num ex_epsg_4326]
  obtain gdf where run: "df_to_gdf ex_epsg (\<lambda>s. None) ex_visits2 ''Lat'' ''Lon'' 4326 = Inr gdf"
    by (auto simp: ex_visits2_def)
  note t = geometry_builder_temporal_columns[OF ex_visits2_wf d run j n]
  have col: "column_cells ex_visits2 3 =
      [VTime (Timestamp 2023 5 1 0 0 0 0), VTime (Timestamp 2023 5 2 13 45 10 0)]"
    by (simp add: ex_visits2_def column_cells_def)
  have dt: "dtypes ex_visits2 ! 3 = Datetime64" by (simp add: ex_visits2_def)
  have c0: "cell ex_visits2 0 3 = VTime (Timestamp 2023 5 1 0 0 0 0)"
    and c1: "cell ex_visits2 1 3 = VTime (Timestamp 2023 5 2 13 45 10 0)"
    by (simp_all add: ex_visits2_def cell_def)
  have n2: "length (rows ex_visits2) = 2" by (simp add: ex_visits2_def)
  from t dt have nm: "columns gdf ! 3 = columns ex_visits2 ! 3" and ob: "dtypes gdf ! 3 = Object"
    and cells: "\<forall>i<length (rows ex_visits2). \<forall>t. cell ex_visits2 i 3 = VTime t \<longrightarrow>
                  cell gdf i 3 =
                    VStr (if list_all is_date_only (column_cells ex_visits2 3) then date_text t
                          else date_text t @ '' '' @ time_text t @
                               fraction_text (column_cells ex_visits2 3) t)"
    by simp_all
  have g0: "cell gdf 0 3 = VStr ''2023-05-01 00:00:00''"
    using cells[rule_format, of 0, OF _ c0] n2
    by (simp add: col ex_date_text fraction_text_def)
  have g1: "cell gdf 1 3 = VStr ''2023-05-02 13:45:10''"
    using cells[rule_format, of 1, OF _ c1] n2
    by (simp add: col ex_date_text fraction_text_def)
  have nm': "columns gdf ! 3 = ''Visited''" using nm by (simp add: ex_visits2_def)
  from ex_visits2_wf d j n run nm' ob g0 g1 show ?thesis by blast
qed

text \<open>
  C4 as stated fails in its example: in the table of the scenario the one value of
  \<^verbatim>\<open>Visited\<close> is 2023-05-01T00:00:00, so every timestamp of the column is at midnight,
  and the cell becomes the text \<^verbatim>\<open>2023-05-01\<close>, which is neither
  \<^verbatim>\<open>2023-05-01 00:00:00\<close> nor \<^verbatim>\<open>2023-05-01T00:00:00\<close>.
\<close>

theorem geometry_builder_text_counterexample:
  "cell ex_visits 0 4 = VTime (Timestamp 2023 5 1 0 0 0 0) \<and>
   map_sum (\<lambda>e. e) (\<lambda>gdf. cell gdf 0 4)
     (df_to_gdf ex_epsg (\<lambda>s. None) ex_visits ''Lat'' ''Lon'' 4326) = Inr (VStr ''2023-05-01'') \<and>
   VStr ''2023-05-01'' \<noteq> VStr ''2023-05-01 00:00:00'' \<and>
   VStr ''2023-05-01'' \<noteq> VStr ''2023-05-01T00:00:00''"
proof -
  have d: "distinct (columns ex_visits)" by (simp add: ex_visits_def)
  have j: "4 < length (columns ex_visits)" and n: "columns ex_visits ! 4 \<noteq> ''geometry''"
    by (simp_all add: ex_visits_def)
  have jx: "2 < length (columns ex_visits)" and jy: "1 < length (columns ex_visits)"
    by (simp_all add: ex_visits_def)
  have num: "\<forall>i<length (rows ex_visits). \<exists>a b. cell ex_visits i 2 = VNum a \<and> cell ex_visits i 1 = VNum b"
    by (simp add: ex_visits_def cell_def)
  from df_to_gdf_total[where valid_epsg=ex_epsg and crs_code=4326 and parse="\<lambda>s. None",
      OF ex_visits_wf d jx jy num ex_epsg_4326]
  obtain gdf where run: "df_to_gdf ex_epsg (\<lambda>s. None) ex_visits ''Lat'' ''Lon'' 4326 = Inr gdf"
    by (auto simp: ex_visits_def)
  have dt: "dtypes ex_visits ! 4 = Datetime64" by (simp add: ex_visits_def)
  have i: "0 < length (rows ex_visits)" by (simp add: ex_visits_def)
  have c0: "cell ex_visits 0 4 = VTime (Timestamp 2023 5 1 0 0 0 0)"
    by (simp add: ex_visits_def cell_def)
  have col: "column_cells ex_visits 4 = [VTime (Timestamp 2023 5 1 0 0 0 0)]"
    by (simp add: ex_visits_def column_cells_def)
  have "cell gdf 0 4 = text_cell (column_cells ex_visits 4) (cell ex_visits 0 4)"
    by (rule df_to_gdf_cell[OF ex_visits_wf d run j n dt i])
  then have "cell gdf 0 4 = VStr ''2023-05-01''"
    by (simp add: c0 col datetime_text_def ex_date_text)
  with run c0 show ?thesis by simp
qed


section \<open>Properties of the Service Provisioner\<close>






section \<open>Properties of the Folder Resolver\<close>



lemma create_url_neq: "folders_url username @ ''/createFolder'' \<noteq> folders_url username"
  by simp



lemma is_create_list [simp]: "\<not> is_create_call username (list_folders_request token username)"
  by (simp add: is_create_call_def list_folders_request_def Let_def)

lemma is_create_create [simp]:
  "is_create_call username (create_folder_request token username folder_name)"
  by (simp add: is_create_call_def create_folder_request_def Let_def)





end
